theory Spec2Isabelle
  imports Main "HOL-Library.AList" "HOL-Library.Char_ord" "HOL-Library.List_Lexorder"
begin

section \<open>Data model of \<^verbatim>\<open>config_manager.py\<close>\<close>

text \<open>
  A path is the sequence of its components, as \<^verbatim>\<open>pathlib.Path.parts\<close> gives it:
  \<^verbatim>\<open>Path("config")\<close> is \<open>[''config'']\<close> and \<^verbatim>\<open>Path(".")\<close> is \<open>[]\<close>.  Two paths are
  equal when their components are, which is the equality \<^verbatim>\<open>file_path == self.mobile_devices_path\<close>
  and the dictionary lookup \<^verbatim>\<open>file_path in self._config_cache\<close> use.
\<close>

type_synonym path = "string list"

definition joinpath :: "path \<Rightarrow> string \<Rightarrow> path" where
  "joinpath p name = p @ [name]"

definition parent :: "path \<Rightarrow> path" where
  \<comment> \<open>\<^verbatim>\<open>Path.parent\<close>: purely lexical; the root, whose only part is \<^verbatim>\<open>/\<close>, and
      \<^verbatim>\<open>Path(".")\<close> are their own parents\<close>
  "parent p = (if p = [''/''] then p else butlast p)"

text \<open>
  The directories on the way to a path, outermost first: for \<^verbatim>\<open>a/b/c\<close> they are
  \<^verbatim>\<open>a\<close> and \<^verbatim>\<open>a/b\<close>.  The working directory itself is not among them.
\<close>

fun ancestors_from :: "path \<Rightarrow> path \<Rightarrow> path list" where
  "ancestors_from pre [] = []"
| "ancestors_from pre [c] = []"
| "ancestors_from pre (c # cs) = (pre @ [c]) # ancestors_from (pre @ [c]) cs"

definition proper_ancestors :: "path \<Rightarrow> path list" where
  "proper_ancestors p = ancestors_from [] p"

text \<open>
  The values \<^verbatim>\<open>json.load\<close> returns.  A dictionary is an association list in insertion
  order with string keys.  Floating-point numbers are outside the model.
\<close>

datatype json =
    JNull
  | JBool bool
  | JInt int
  | JStr string
  | JList "json list"
  | JDict "(string \<times> json) list"

text \<open>The exceptions the code can meet.\<close>

datatype exn =
    FileNotFoundError
  | NotADirectoryError
  | IsADirectoryError
  | FileExistsError
  | PermissionError
  | UnicodeDecodeError
  | JSONDecodeError
  | RecursionError
  | ValueError
  | KeyError
  | TypeError

text \<open>
  The file system as the code sees it.  \<open>entry\<close> says what is at a path: nothing, a
  file holding text, a file whose bytes do not decode to text, or a directory.
  \<open>unreadable\<close> and \<open>unwritable\<close> say that the operating system refuses, with
  \<^verbatim>\<open>PermissionError\<close>, to open the path for reading, or to open or create it for
  writing.
\<close>

datatype fentry = Absent | Regular string | Undecodable | Directory

record filesystem =
  entry :: "path \<Rightarrow> fentry"
  unreadable :: "path \<Rightarrow> bool"
  unwritable :: "path \<Rightarrow> bool"

text \<open>
  Resolving a path goes through the directories on the way, outermost first, and stops at
  the first that is not a directory: a missing one gives \<^verbatim>\<open>FileNotFoundError\<close>, a file
  in the place of a directory gives \<^verbatim>\<open>NotADirectoryError\<close>.
\<close>

fun walk :: "filesystem \<Rightarrow> path list \<Rightarrow> exn option" where
  "walk fs [] = None"
| "walk fs (q # qs) =
     (case entry fs q of
        Directory \<Rightarrow> walk fs qs
      | Absent \<Rightarrow> Some FileNotFoundError
      | _ \<Rightarrow> Some NotADirectoryError)"

definition exists_path :: "filesystem \<Rightarrow> path \<Rightarrow> bool" where
  \<comment> \<open>\<^verbatim>\<open>Path.exists()\<close>: false as well when the path cannot be resolved\<close>
  "exists_path fs p = (walk fs (proper_ancestors p) = None \<and> entry fs p \<noteq> Absent)"

text \<open>\<^verbatim>\<open>file_path.open('r')\<close> followed by reading the whole text.\<close>

definition open_r :: "filesystem \<Rightarrow> path \<Rightarrow> exn + string" where
  "open_r fs p =
     (if unreadable fs p then Inl PermissionError
      else case walk fs (proper_ancestors p) of
             Some err \<Rightarrow> Inl err
           | None \<Rightarrow>
               (case entry fs p of
                  Absent \<Rightarrow> Inl FileNotFoundError
                | Directory \<Rightarrow> Inl IsADirectoryError
                | Undecodable \<Rightarrow> Inl UnicodeDecodeError
                | Regular text \<Rightarrow> Inr text))"

text \<open>
  \<^verbatim>\<open>file_path.open('w')\<close>: the file is created or truncated, and what is written
  afterwards becomes its content.
\<close>

definition open_w :: "filesystem \<Rightarrow> path \<Rightarrow> exn + filesystem" where
  "open_w fs p =
     (if unwritable fs p then Inl PermissionError
      else case walk fs (proper_ancestors p) of
             Some err \<Rightarrow> Inl err
           | None \<Rightarrow>
               (case entry fs p of
                  Directory \<Rightarrow> Inl IsADirectoryError
                | _ \<Rightarrow> Inr (fs\<lparr>entry := (entry fs)(p := Regular [])\<rparr>)))"

definition write_text :: "filesystem \<Rightarrow> path \<Rightarrow> string \<Rightarrow> filesystem" where
  "write_text fs p text = fs\<lparr>entry := (entry fs)(p := Regular text)\<rparr>"

text \<open>
  The attributes of a \<^verbatim>\<open>ConfigManager\<close> instance.  \<open>device_index\<close> is \<open>None\<close> while
  the instance has no attribute \<^verbatim>\<open>_device_index\<close> (\<^verbatim>\<open>hasattr\<close> is false); the index
  itself is a dictionary whose keys are the records' names.
\<close>

record manager =
  config_dir :: path
  mobile_devices_path :: path
  telegram_entities_path :: path
  env_file_path :: path
  example_env_file :: path
  sessions_dir :: path
  default_env_settings :: "(string \<times> string) list"
  config_cache :: "path \<rightharpoonup> json"
  device_index :: "(json \<times> json) list option"

section \<open>Cached reading and writing of JSON documents\<close>

text \<open>
  \<^verbatim>\<open>json.load\<close> and \<^verbatim>\<open>json.dump\<close> belong to the standard library and are parameters:
  \<open>load text\<close> is the value parsed or the exception the parser raises
  (\<^verbatim>\<open>JSONDecodeError\<close> for text that is not JSON, and also \<^verbatim>\<open>RecursionError\<close> or
  \<^verbatim>\<open>ValueError\<close>, which the parser raises on deep nesting and on very long numbers);
  \<open>dump data\<close> is \<open>Inr text\<close> when the value is serialised completely and \<open>Inl text\<close>
  when serialisation raises after \<open>text\<close> has been written.
\<close>

type_synonym json_load = "string \<Rightarrow> exn + json"
type_synonym json_dump = "json \<Rightarrow> string + string"

definition fallback :: "manager \<Rightarrow> path \<Rightarrow> json" where
  "fallback m file_path = (if file_path = mobile_devices_path m then JList [] else JDict [])"

definition read_json_file :: "json_load \<Rightarrow> manager \<Rightarrow> filesystem \<Rightarrow> path \<Rightarrow> (exn + json) \<times> manager" where
  "read_json_file load m fs file_path =
     (case config_cache m file_path of
        Some cached \<Rightarrow> (Inr cached, m)
      | None \<Rightarrow>
          (case (case open_r fs file_path of Inl err \<Rightarrow> Inl err | Inr text \<Rightarrow> load text) of
             Inl err \<Rightarrow>
               (if err = JSONDecodeError \<or> err = FileNotFoundError
                then (Inr (fallback m file_path), m)
                else (Inl err, m))
           | Inr data \<Rightarrow>
               (Inr data, m\<lparr>config_cache := (config_cache m)(file_path \<mapsto> data)\<rparr>)))"

definition write_json_file :: "json_dump \<Rightarrow> manager \<Rightarrow> filesystem \<Rightarrow> path \<Rightarrow> json \<Rightarrow> bool \<times> manager \<times> filesystem" where
  "write_json_file dump m fs file_path data =
     (case open_w fs file_path of
        Inl err \<Rightarrow> (False, m, fs)
      | Inr fs1 \<Rightarrow>
          (case dump data of
             Inl partial \<Rightarrow> (False, m, write_text fs1 file_path partial)
           | Inr text \<Rightarrow>
               (True, m\<lparr>config_cache := (config_cache m)(file_path \<mapsto> data)\<rparr>,
                write_text fs1 file_path text)))"

definition invalidate_cache :: "manager \<Rightarrow> path option \<Rightarrow> manager" where
  "invalidate_cache m file_path =
     (case file_path of
        Some p \<Rightarrow> m\<lparr>config_cache := (config_cache m)(p := None)\<rparr>
      | None \<Rightarrow> m\<lparr>config_cache := Map.empty, device_index := None\<rparr>)"

definition new_manager :: "path \<Rightarrow> manager" where
  \<comment> \<open>the attributes \<^verbatim>\<open>__init__\<close> sets\<close>
  "new_manager dir =
     \<lparr>config_dir = dir,
      mobile_devices_path = joinpath dir ''mobile_devices.json'',
      telegram_entities_path = joinpath dir ''telegram_entities.json'',
      env_file_path = joinpath (parent dir) ''.env'',
      example_env_file = joinpath (parent dir) ''.env.example'',
      sessions_dir = joinpath (parent dir) ''sessions'',
      default_env_settings = [(''TELEGRAM_API_ID'', '''')],
      config_cache = Map.empty,
      device_index = None\<rparr>"

section \<open>The device index\<close>

text \<open>
  What Python does with a JSON value in \<^verbatim>\<open>{d['name']: d for d in devices}\<close>:
  iterating a list gives its elements, a dictionary its keys and a string its characters,
  anything else raises \<^verbatim>\<open>TypeError\<close>; subscripting with a string needs a dictionary
  that has the key; a dictionary key must be hashable, which lists and dictionaries are
  not; and the keys \<^verbatim>\<open>True\<close> and \<^verbatim>\<open>1\<close> (\<^verbatim>\<open>False\<close> and \<^verbatim>\<open>0\<close>) are the same key.
\<close>

fun iterate :: "json \<Rightarrow> exn + json list" where
  "iterate (JList xs) = Inr xs"
| "iterate (JDict kvs) = Inr (map (\<lambda>kv. JStr (fst kv)) kvs)"
| "iterate (JStr s) = Inr (map (\<lambda>c. JStr [c]) s)"
| "iterate _ = Inl TypeError"

fun subscript :: "json \<Rightarrow> string \<Rightarrow> exn + json" where
  "subscript (JDict kvs) key = (case map_of kvs key of None \<Rightarrow> Inl KeyError | Some v \<Rightarrow> Inr v)"
| "subscript _ key = Inl TypeError"

fun hashable :: "json \<Rightarrow> bool" where
  "hashable (JList xs) = False"
| "hashable (JDict kvs) = False"
| "hashable _ = True"

fun key_eq :: "json \<Rightarrow> json \<Rightarrow> bool" where
  "key_eq (JBool b) (JInt n) = (n = (if b then 1 else 0))"
| "key_eq (JInt n) (JBool b) = (n = (if b then 1 else 0))"
| "key_eq a b = (a = b)"

fun dict_setitem :: "(json \<times> json) list \<Rightarrow> json \<Rightarrow> json \<Rightarrow> (json \<times> json) list" where
  "dict_setitem [] k v = [(k, v)]"
| "dict_setitem ((k', v') # rest) k v =
     (if key_eq k' k then (k', v) # rest else (k', v') # dict_setitem rest k v)"

fun dict_get :: "(json \<times> json) list \<Rightarrow> json \<Rightarrow> json option" where
  "dict_get [] k = None"
| "dict_get ((k', v') # rest) k = (if key_eq k' k then Some v' else dict_get rest k)"

text \<open>The comprehension, one record at a time; it stops at the first exception.\<close>

fun build_index :: "(json \<times> json) list \<Rightarrow> json list \<Rightarrow> exn + (json \<times> json) list" where
  "build_index acc [] = Inr acc"
| "build_index acc (d # ds) =
     (case subscript d ''name'' of
        Inl err \<Rightarrow> Inl err
      | Inr name \<Rightarrow>
          (if hashable name then build_index (dict_setitem acc name d) ds else Inl TypeError))"

definition get_mobile_devices :: "json_load \<Rightarrow> manager \<Rightarrow> filesystem \<Rightarrow> (exn + json) \<times> manager" where
  "get_mobile_devices load m fs = read_json_file load m fs (mobile_devices_path m)"

definition get_device_by_name ::
  "json_load \<Rightarrow> manager \<Rightarrow> filesystem \<Rightarrow> string \<Rightarrow> (exn + json option) \<times> manager" where
  "get_device_by_name load m fs device_name =
     (case get_mobile_devices load m fs of
        (Inl err, m1) \<Rightarrow> (Inl err, m1)
      | (Inr devices, m1) \<Rightarrow>
          (case device_index m1 of
             Some index \<Rightarrow> (Inr (dict_get index (JStr device_name)), m1)
           | None \<Rightarrow>
               (case iterate devices of
                  Inl err \<Rightarrow> (Inl err, m1)
                | Inr ds \<Rightarrow>
                    (case build_index [] ds of
                       Inl err \<Rightarrow> (Inl err, m1)
                     | Inr index \<Rightarrow>
                         (Inr (dict_get index (JStr device_name)),
                          m1\<lparr>device_index := Some index\<rparr>)))))"

section \<open>Environment settings\<close>

text \<open>
  Python strings are modelled by \<^typ>\<open>string\<close>, a character being a code point below 256.
  \<open>isspace\<close> is \<^verbatim>\<open>str.isspace\<close> on these code points, which is what \<^verbatim>\<open>strip()\<close>
  removes.
\<close>

definition LF :: char where "LF = CHR 0x0A"
definition CR :: char where "CR = CHR 0x0D"
definition SQUOTE :: char where "SQUOTE = CHR 0x27"
definition DQUOTE :: char where "DQUOTE = CHR 0x22"

definition isspace :: "char \<Rightarrow> bool" where
  "isspace c =
     (let n = (of_char c :: nat)
      in (9 \<le> n \<and> n \<le> 13) \<or> (28 \<le> n \<and> n \<le> 32) \<or> n = 133 \<or> n = 160)"

definition strip_by :: "(char \<Rightarrow> bool) \<Rightarrow> string \<Rightarrow> string" where
  "strip_by P s = rev (dropWhile P (rev (dropWhile P s)))"

definition strip_ws :: "string \<Rightarrow> string" where
  \<comment> \<open>\<^verbatim>\<open>s.strip()\<close>\<close>
  "strip_ws s = strip_by isspace s"

definition strip_chars :: "string \<Rightarrow> string \<Rightarrow> string" where
  \<comment> \<open>\<^verbatim>\<open>s.strip(chars)\<close>\<close>
  "strip_chars chars s = strip_by (\<lambda>c. c \<in> set chars) s"

definition split_first :: "char \<Rightarrow> string \<Rightarrow> string list" where
  \<comment> \<open>\<^verbatim>\<open>s.split(sep, 1)\<close> for a separator of one character\<close>
  "split_first sep s =
     (if sep \<in> set s
      then [takeWhile (\<lambda>c. c \<noteq> sep) s, tl (dropWhile (\<lambda>c. c \<noteq> sep) s)]
      else [s])"

text \<open>
  \<^verbatim>\<open>for line in f\<close> on a file opened in text mode: a line ends at \<^verbatim>\<open>\n\<close>, at
  \<^verbatim>\<open>\r\n\<close> or at \<^verbatim>\<open>\r\<close>, the ending is read as \<^verbatim>\<open>\n\<close> and stays on the line;
  a last line without an ending is a line too.  \<open>after_cr\<close> says that the previous
  character was \<^verbatim>\<open>\r\<close>, \<open>cur\<close> is the line read so far.
\<close>

fun text_lines :: "bool \<Rightarrow> string \<Rightarrow> string \<Rightarrow> string list" where
  "text_lines after_cr cur [] = (if cur = [] then [] else [cur])"
| "text_lines after_cr cur (c # cs) =
     (if c = LF then
        (if after_cr then text_lines False cur cs
         else (cur @ [LF]) # text_lines False [] cs)
      else if c = CR then (cur @ [LF]) # text_lines True [] cs
      else text_lines False (cur @ [c]) cs)"

text \<open>
  A dictionary from strings to strings is an association list in insertion order;
  \<^const>\<open>AList.update\<close> is \<^verbatim>\<open>d[k] = v\<close>: it replaces the value of a key that is there and
  appends a new key.
\<close>

type_synonym env_dict = "(string \<times> string) list"

definition dict_update :: "env_dict \<Rightarrow> env_dict \<Rightarrow> env_dict" where
  \<comment> \<open>\<^verbatim>\<open>d.update(other)\<close>, and \<^verbatim>\<open>{**a, **b}\<close> is \<open>dict_update (dict_update [] a) b\<close>\<close>
  "dict_update d other = foldl (\<lambda>acc kv. AList.update (fst kv) (snd kv) acc) d other"

record world =
  files :: filesystem
  environ :: "string \<rightharpoonup> string"

definition getenv :: "world \<Rightarrow> string \<Rightarrow> string \<Rightarrow> string" where
  "getenv w key dflt = (case environ w key of Some v \<Rightarrow> v | None \<Rightarrow> dflt)"

fun get_env_loop :: "world \<Rightarrow> env_dict \<Rightarrow> string list \<Rightarrow> exn + env_dict" where
  "get_env_loop w env_vars [] = Inr env_vars"
| "get_env_loop w env_vars (key # keys) =
     (case map_of env_vars key of
        None \<Rightarrow> Inl KeyError
      | Some dflt \<Rightarrow> get_env_loop w (AList.update key (getenv w key dflt) env_vars) keys)"

definition get_env_settings :: "manager \<Rightarrow> world \<Rightarrow> exn + env_dict" where
  "get_env_settings m w =
     get_env_loop w (default_env_settings m) (map fst (default_env_settings m))"

fun read_env_lines :: "env_dict \<Rightarrow> string list \<Rightarrow> exn + env_dict" where
  "read_env_lines env_data [] = Inr env_data"
| "read_env_lines env_data (line # rest) =
     (if CHR ''='' \<in> set line then
        (case split_first CHR ''='' (strip_ws line) of
           [k, v] \<Rightarrow> read_env_lines (AList.update k (strip_chars [SQUOTE, DQUOTE] v) env_data) rest
         | _ \<Rightarrow> Inl ValueError)
      else read_env_lines env_data rest)"

definition read_env_file :: "manager \<Rightarrow> filesystem \<Rightarrow> exn + env_dict" where
  \<comment> \<open>lines 94 to 100 of \<^verbatim>\<open>save_env_settings\<close>\<close>
  "read_env_file m fs =
     (if exists_path fs (env_file_path m) then
        (case open_r fs (env_file_path m) of
           Inl err \<Rightarrow> Inl err
         | Inr text \<Rightarrow> read_env_lines [] (text_lines False [] text))
      else Inr [])"

definition env_line :: "string \<Rightarrow> string \<Rightarrow> string" where
  \<comment> \<open>the f-string of line 108\<close>
  "env_line key v = key @ [CHR ''='', SQUOTE] @ v @ [SQUOTE, LF]"

fun write_env_lines :: "env_dict \<Rightarrow> string list \<Rightarrow> string \<Rightarrow> exn option \<times> string" where
  "write_env_lines env_data [] out = (None, out)"
| "write_env_lines env_data (key # keys) out =
     (case map_of env_data key of
        None \<Rightarrow> (Some KeyError, out)
      | Some v \<Rightarrow> write_env_lines env_data keys (out @ env_line key v))"

definition save_env_settings :: "manager \<Rightarrow> filesystem \<Rightarrow> env_dict \<Rightarrow> bool \<times> filesystem" where
  "save_env_settings m fs settings =
     (case read_env_file m fs of
        Inl err \<Rightarrow> (False, fs)
      | Inr env_data0 \<Rightarrow>
          (let env_data =
                 dict_update env_data0
                   (dict_update (dict_update [] (default_env_settings m)) settings)
           in case open_w fs (env_file_path m) of
                Inl err \<Rightarrow> (False, fs)
              | Inr fs1 \<Rightarrow>
                  (case write_env_lines env_data (sort (map fst env_data)) [] of
                     (Some err, out) \<Rightarrow> (False, write_text fs1 (env_file_path m) out)
                   | (None, out) \<Rightarrow> (True, write_text fs1 (env_file_path m) out))))"

section \<open>Initialisation\<close>

text \<open>
  \<^verbatim>\<open>Path.mkdir(exist_ok=True, parents=True)\<close>: every missing directory on the way is
  created; a directory that is there is left alone; a file in the way, or a refusal of
  the operating system, raises.  \<open>pre\<close> is the part of the path already done.
\<close>

definition mkdir_exist_ok :: "filesystem \<Rightarrow> path \<Rightarrow> exn + filesystem" where
  "mkdir_exist_ok fs p =
     (case entry fs p of
        Directory \<Rightarrow> Inr fs
      | Absent \<Rightarrow>
          (if unwritable fs p then Inl PermissionError
           else Inr (fs\<lparr>entry := (entry fs)(p := Directory)\<rparr>))
      | _ \<Rightarrow> Inl FileExistsError)"

fun mkdir_parents :: "filesystem \<Rightarrow> path \<Rightarrow> path \<Rightarrow> exn + filesystem" where
  "mkdir_parents fs pre [] = Inr fs"
| "mkdir_parents fs pre (c # cs) =
     (case mkdir_exist_ok fs (pre @ [c]) of
        Inl err \<Rightarrow>
          Inl (if err = FileExistsError \<and> cs \<noteq> [] then NotADirectoryError else err)
      | Inr fs1 \<Rightarrow> mkdir_parents fs1 (pre @ [c]) cs)"

definition check_config_dir :: "filesystem \<Rightarrow> path \<Rightarrow> exn + filesystem" where
  "check_config_dir fs dir = mkdir_parents fs [] dir"

definition create_file :: "filesystem \<Rightarrow> path \<Rightarrow> string \<Rightarrow> filesystem" where
  "create_file fs p text =
     (case open_w fs p of Inl err \<Rightarrow> fs | Inr fs1 \<Rightarrow> write_text fs1 p text)"

definition create_example_env :: "manager \<Rightarrow> filesystem \<Rightarrow> filesystem" where
  \<comment> \<open>Modelled from the spec: \<^verbatim>\<open>_create_example_env\<close> is called but not defined in the
      source; the spec has it create the example environment file, listing the recognised
      keys with empty values, one \<^verbatim>\<open>KEY=""\<close> line per key.\<close>
  "create_example_env m fs =
     create_file fs (example_env_file m)
       (concat (map (\<lambda>kv. fst kv @ [CHR ''='', DQUOTE, DQUOTE, LF]) (default_env_settings m)))"

definition create_default_devices :: "manager \<Rightarrow> filesystem \<Rightarrow> filesystem" where
  \<comment> \<open>Modelled from the spec: \<^verbatim>\<open>_create_default_devices\<close> is called but not defined in
      the source; the spec has it create an empty device list file.\<close>
  "create_default_devices m fs = create_file fs (mobile_devices_path m) ''[]''"

definition create_empty_telegram_entities :: "manager \<Rightarrow> filesystem \<Rightarrow> filesystem" where
  \<comment> \<open>Modelled from the spec: \<^verbatim>\<open>_create_empty_telegram_entities\<close> is called but not
      defined in the source; the spec has it create an empty entities mapping file.\<close>
  "create_empty_telegram_entities m fs = create_file fs (telegram_entities_path m) ''{}''"

definition initialize_config_files :: "manager \<Rightarrow> filesystem \<Rightarrow> filesystem" where
  "initialize_config_files m fs =
     (let fs1 = (if \<not> exists_path fs (example_env_file m) then create_example_env m fs else fs);
          fs2 = (if \<not> exists_path fs1 (mobile_devices_path m) then create_default_devices m fs1
                 else fs1)
      in if \<not> exists_path fs2 (telegram_entities_path m)
         then create_empty_telegram_entities m fs2 else fs2)"

text \<open>
  \<^verbatim>\<open>__init__\<close>.  \<^verbatim>\<open>load_dotenv\<close> belongs to a library and is a parameter: it reads
  files and changes the process environment only.
\<close>

type_synonym load_dotenv = "filesystem \<Rightarrow> path \<Rightarrow> (string \<rightharpoonup> string) \<Rightarrow> (string \<rightharpoonup> string)"

definition init :: "load_dotenv \<Rightarrow> path \<Rightarrow> world \<Rightarrow> exn + manager \<times> world" where
  "init dotenv dir w =
     (case check_config_dir (files w) dir of
        Inl err \<Rightarrow> Inl err
      | Inr fs1 \<Rightarrow>
          (let m = new_manager dir
           in Inr (m, \<lparr>files = initialize_config_files m fs1,
                       environ = dotenv fs1 (env_file_path m) (environ w)\<rparr>)))"

section \<open>Predicates of the statements, and sample states\<close>

definition named :: "string \<Rightarrow> json \<Rightarrow> bool" where
  \<comment> \<open>the record's \<^verbatim>\<open>"name"\<close> field is the string \<open>q\<close>\<close>
  "named q d = (subscript d ''name'' = Inr (JStr q))"

definition has_name :: "json \<Rightarrow> bool" where
  \<comment> \<open>\<open>d\<close> is a record that carries a \<^verbatim>\<open>"name"\<close> field\<close>
  "has_name d = (case subscript d ''name'' of Inl err \<Rightarrow> False | Inr v \<Rightarrow> True)"

definition has_hashable_name :: "json \<Rightarrow> bool" where
  \<comment> \<open>\<open>d\<close> is a record whose \<^verbatim>\<open>"name"\<close> field holds a string, a number, a boolean or null\<close>
  "has_hashable_name d = (case subscript d ''name'' of Inl err \<Rightarrow> False | Inr v \<Rightarrow> hashable v)"

definition path_prefixes :: "path \<Rightarrow> path list" where
  \<comment> \<open>the paths of the directories a path goes through: its proper, non-empty prefixes\<close>
  "path_prefixes p = map (\<lambda>i. take (Suc i) p) [0..<length p - 1]"

definition file_missing :: "filesystem \<Rightarrow> path \<Rightarrow> bool" where
  \<comment> \<open>nothing is at the path, nothing but directories or gaps lies on the way to it, and
      access is not refused\<close>
  "file_missing fs p =
     (entry fs p = Absent \<and> \<not> unreadable fs p
      \<and> list_all (\<lambda>q. entry fs q = Directory \<or> entry fs q = Absent) (path_prefixes p))"

definition file_holds :: "filesystem \<Rightarrow> path \<Rightarrow> string \<Rightarrow> bool" where
  \<comment> \<open>a readable file with this text is at the path, below directories only\<close>
  "file_holds fs p text =
     (entry fs p = Regular text \<and> \<not> unreadable fs p
      \<and> list_all (\<lambda>q. entry fs q = Directory) (path_prefixes p))"















definition sample_manager :: manager where
  "sample_manager = new_manager [''config'']"

definition config_fs :: filesystem where
  \<comment> \<open>the configuration directory is there and is empty\<close>
  "config_fs =
     \<lparr>entry = (\<lambda>p. if p = [''config''] then Directory else Absent),
      unreadable = (\<lambda>p. False), unwritable = (\<lambda>p. False)\<rparr>"

definition fs_with :: "path \<Rightarrow> string \<Rightarrow> filesystem" where
  "fs_with p text = write_text config_fs p text"

definition device_A :: json where
  "device_A = JDict [(''name'', JStr ''A''), (''id'', JInt 1)]"

definition device_B :: json where
  "device_B = JDict [(''name'', JStr ''B''), (''id'', JInt 2)]"

definition devices_text :: string where
  \<open>devices_text = ''[{"name":"A","id":1},{"name":"B","id":2}]''\<close>

definition nameless_text :: string where
  \<open>nameless_text = ''[{"name":"A","id":1},{"id":2}]''\<close>

definition unhashable_text :: string where
  \<open>unhashable_text = ''[{"name":[]}]''\<close>

text \<open>A parser and a serialiser that know the few documents the sample states use.\<close>

definition sample_load :: json_load where
  "sample_load text =
     (if text = ''[]'' then Inr (JList [])
      else if text = ''{}'' then Inr (JDict [])
      else if text = devices_text then Inr (JList [device_A, device_B])
      else if text = nameless_text then Inr (JList [device_A, JDict [(''id'', JInt 2)]])
      else if text = unhashable_text then Inr (JList [JDict [(''name'', JList [])]])
      else Inl JSONDecodeError)"

definition sample_dump :: json_dump where
  "sample_dump v =
     (if v = JList [] then Inr ''[]''
      else if v = JDict [] then Inr ''{}''
      else if v = JList [device_A, device_B] then Inr devices_text
      else Inl [])"

definition lookup_done :: manager where
  \<comment> \<open>the sample manager after a lookup while the device list on disk is empty\<close>
  "lookup_done =
     snd (get_device_by_name sample_load sample_manager
            (fs_with (mobile_devices_path sample_manager) ''[]'') ''B'')"

definition write_done :: manager where
  \<comment> \<open>and after the devices A and B have then been written to the device list\<close>
  "write_done =
     fst (snd (write_json_file sample_dump lookup_done
                 (fs_with (mobile_devices_path sample_manager) ''[]'')
                 (mobile_devices_path sample_manager) (JList [device_A, device_B])))"

definition stale_manager :: manager where
  \<comment> \<open>both documents cached as empty, and an index built from the empty device list\<close>
  "stale_manager =
     sample_manager\<lparr>config_cache :=
         [mobile_devices_path sample_manager \<mapsto> JList [],
          telegram_entities_path sample_manager \<mapsto> JDict []],
       device_index := Some []\<rparr>"

definition sample_config_fs :: filesystem where
  \<comment> \<open>the configuration directory is there and holds a device list\<close>
  "sample_config_fs =
     \<lparr>entry = (\<lambda>p. if p = [''config''] then Directory
                      else if p = [''config'', ''mobile_devices.json''] then Regular devices_text
                      else Absent),
      unreadable = (\<lambda>p. False), unwritable = (\<lambda>p. False)\<rparr>"


definition sample_dotenv :: load_dotenv where
  "sample_dotenv fs p env = env"

definition create_if_missing :: "filesystem \<Rightarrow> path \<Rightarrow> string \<Rightarrow> filesystem" where
  \<comment> \<open>one guarded step of \<^verbatim>\<open>_initialize_config_files\<close>\<close>
  "create_if_missing fs q text = (if \<not> exists_path fs q then create_file fs q text else fs)"

lemmas sample_defs =
  sample_manager_def new_manager_def joinpath_def parent_def proper_ancestors_def config_fs_def fs_with_def
  write_text_def sample_load_def sample_dump_def devices_text_def nameless_text_def
  unhashable_text_def device_A_def device_B_def

section \<open>Round trip through the cache\<close>

lemma write_json_file_success:
  "write_json_file dump m fs p data = (True, m', fs') \<Longrightarrow>
   m' = m\<lparr>config_cache := (config_cache m)(p \<mapsto> data)\<rparr>"
  by (auto simp: write_json_file_def split: sum.splits)

lemma write_json_file_failure:
  "write_json_file dump m fs p data = (False, m', fs') \<Longrightarrow> m' = m"
  by (auto simp: write_json_file_def split: sum.splits)

lemma read_json_file_cached:
  "config_cache m p = Some v \<Longrightarrow> read_json_file load m fs p = (Inr v, m)"
  by (simp add: read_json_file_def)

lemma read_json_file_uncached:
  "config_cache m p = None \<Longrightarrow>
   fst (read_json_file load m fs p) =
     (case (case open_r fs p of Inl err \<Rightarrow> Inl err | Inr text \<Rightarrow> load text) of
        Inl err \<Rightarrow>
          if err = JSONDecodeError \<or> err = FileNotFoundError then Inr (fallback m p) else Inl err
      | Inr data \<Rightarrow> Inr data)"
  by (simp add: read_json_file_def split: sum.splits)

lemma read_json_file_device_index:
  "device_index (snd (read_json_file load m fs p)) = device_index m"
  by (simp add: read_json_file_def split: sum.splits option.splits)

text \<open>
  Claim C2.  When \<^verbatim>\<open>_write_json_file(path, value)\<close> returns \<^verbatim>\<open>True\<close>, the next
  \<^verbatim>\<open>_read_json_file(path)\<close>, with no invalidation in between, returns exactly that
  value, whatever the file system holds by then and whatever the serialiser and the
  parser are; the read leaves the manager unchanged.
\<close>

theorem write_read_roundtrip:
  assumes "write_json_file dump m fs p data = (True, m', fs')"
  shows "read_json_file load m' fs'' p = (Inr data, m')"
proof -
  from assms have "m' = m\<lparr>config_cache := (config_cache m)(p \<mapsto> data)\<rparr>"
    by (rule write_json_file_success)
  then have "config_cache m' p = Some data" by simp
  then show ?thesis by (rule read_json_file_cached)
qed

theorem write_read_roundtrip_witness:
  "write_json_file sample_dump sample_manager config_fs (mobile_devices_path sample_manager)
      (JList [device_A, device_B])
     = (True,
        sample_manager\<lparr>config_cache := [mobile_devices_path sample_manager \<mapsto> JList [device_A, device_B]]\<rparr>,
        fs_with (mobile_devices_path sample_manager) devices_text)
   \<and> read_json_file sample_load
        (sample_manager\<lparr>config_cache := [mobile_devices_path sample_manager \<mapsto> JList [device_A, device_B]]\<rparr>)
        config_fs (mobile_devices_path sample_manager)
     = (Inr (JList [device_A, device_B]),
        sample_manager\<lparr>config_cache := [mobile_devices_path sample_manager \<mapsto> JList [device_A, device_B]]\<rparr>)"
proof -
  have w: "write_json_file sample_dump sample_manager config_fs (mobile_devices_path sample_manager)
      (JList [device_A, device_B])
     = (True,
        sample_manager\<lparr>config_cache := [mobile_devices_path sample_manager \<mapsto> JList [device_A, device_B]]\<rparr>,
        fs_with (mobile_devices_path sample_manager) devices_text)"
    by (simp add: write_json_file_def open_w_def sample_defs)
  from w write_read_roundtrip [OF w, of sample_load config_fs] show ?thesis by simp
qed

text \<open>
  Claim C9.  When \<^verbatim>\<open>_write_json_file(path, value)\<close> returns \<^verbatim>\<open>False\<close>, the manager, and
  so the cache, is as it was before the call: an entry the path had still holds its
  previous value and the next \<^verbatim>\<open>_read_json_file(path)\<close> returns that value, not the
  one whose write failed; a path without an entry still has none.
\<close>

theorem failed_write_keeps_cache:
  assumes "write_json_file dump m fs p data = (False, m', fs')"
  shows "config_cache m' = config_cache m
       \<and> (\<forall>v. config_cache m p = Some v \<longrightarrow> read_json_file load m' fs' p = (Inr v, m'))
       \<and> (config_cache m p = None \<longrightarrow> config_cache m' p = None)"
proof -
  from assms have "m' = m" by (rule write_json_file_failure)
  then show ?thesis by (simp add: read_json_file_cached)
qed

theorem failed_write_keeps_cache_witness:
  "write_json_file sample_dump
      (sample_manager\<lparr>config_cache := [mobile_devices_path sample_manager \<mapsto> JList []]\<rparr>)
      (config_fs\<lparr>unwritable := (\<lambda>p. True)\<rparr>) (mobile_devices_path sample_manager)
      (JList [device_A, device_B])
     = (False,
        sample_manager\<lparr>config_cache := [mobile_devices_path sample_manager \<mapsto> JList []]\<rparr>,
        config_fs\<lparr>unwritable := (\<lambda>p. True)\<rparr>)
   \<and> read_json_file sample_load
        (sample_manager\<lparr>config_cache := [mobile_devices_path sample_manager \<mapsto> JList []]\<rparr>)
        (config_fs\<lparr>unwritable := (\<lambda>p. True)\<rparr>) (mobile_devices_path sample_manager)
     = (Inr (JList []),
        sample_manager\<lparr>config_cache := [mobile_devices_path sample_manager \<mapsto> JList []]\<rparr>)"
proof -
  have w: "write_json_file sample_dump
      (sample_manager\<lparr>config_cache := [mobile_devices_path sample_manager \<mapsto> JList []]\<rparr>)
      (config_fs\<lparr>unwritable := (\<lambda>p. True)\<rparr>) (mobile_devices_path sample_manager)
      (JList [device_A, device_B])
     = (False,
        sample_manager\<lparr>config_cache := [mobile_devices_path sample_manager \<mapsto> JList []]\<rparr>,
        config_fs\<lparr>unwritable := (\<lambda>p. True)\<rparr>)"
    by (simp add: write_json_file_def open_w_def sample_defs)
  from w failed_write_keeps_cache [OF w, of sample_load] show ?thesis by simp
qed

section \<open>The fallback of a read\<close>

lemma ancestors_from_take:
  "ancestors_from pre (c # cs) = map (\<lambda>i. pre @ take (Suc i) (c # cs)) [0..<length cs]"
proof (induction cs arbitrary: pre c)
  case Nil
  then show ?case by simp
next
  case (Cons d ds)
  have "[0..<Suc (length ds)] = 0 # map Suc [0..<length ds]"
    by (simp add: upt_conv_Cons map_Suc_upt del: upt_Suc)
  with Cons [of "pre @ [c]" d] show ?case
    by (simp del: upt_Suc)
qed

lemma proper_ancestors_prefixes: "proper_ancestors p = path_prefixes p"
  by (cases p) (simp_all add: proper_ancestors_def path_prefixes_def ancestors_from_take)

lemma walk_directories: "list_all (\<lambda>q. entry fs q = Directory) qs \<Longrightarrow> walk fs qs = None"
  by (induction qs) auto

lemma walk_missing:
  "list_all (\<lambda>q. entry fs q = Directory \<or> entry fs q = Absent) qs \<Longrightarrow>
   walk fs qs = None \<or> walk fs qs = Some FileNotFoundError"
  by (induction qs) auto

lemma open_r_missing: "file_missing fs p \<Longrightarrow> open_r fs p = Inl FileNotFoundError"
  using walk_missing [of fs "path_prefixes p"]
  by (auto simp: file_missing_def open_r_def proper_ancestors_prefixes)

lemma open_r_holds: "file_holds fs p text \<Longrightarrow> open_r fs p = Inr text"
  using walk_directories [of fs "path_prefixes p"]
  by (auto simp: file_holds_def open_r_def proper_ancestors_prefixes)

text \<open>
  Claim C4, as amended.  Take a path with no cache entry.  When its file is missing, no
  file stands where the path needs a directory and access is not refused, or when its
  file is read and the parser rejects the text with \<^verbatim>\<open>JSONDecodeError\<close>,
  \<^verbatim>\<open>_read_json_file\<close> returns the empty list for the mobile-devices document and the
  empty dictionary otherwise, and leaves the manager as it was: the cache still has no
  entry for the path, so the next read goes to the file again and returns what the file
  then holds.
\<close>

theorem read_json_file_fallback:
  assumes "config_cache m p = None"
    and "file_missing fs p \<or> (\<exists>text. file_holds fs p text \<and> load text = Inl JSONDecodeError)"
  shows "read_json_file load m fs p
           = (Inr (if p = mobile_devices_path m then JList [] else JDict []), m)
       \<and> config_cache (snd (read_json_file load m fs p)) p = None
       \<and> (\<forall>fs2 text2 data.
             file_holds fs2 p text2 \<and> load text2 = Inr data \<longrightarrow>
             fst (read_json_file load (snd (read_json_file load m fs p)) fs2 p) = Inr data)"
proof -
  from assms(2)
  have "(case open_r fs p of Inl err \<Rightarrow> Inl err | Inr text \<Rightarrow> load text) = Inl FileNotFoundError
      \<or> (case open_r fs p of Inl err \<Rightarrow> Inl err | Inr text \<Rightarrow> load text) = Inl JSONDecodeError"
    by (auto simp: open_r_missing open_r_holds)
  with assms(1) have r: "read_json_file load m fs p
           = (Inr (if p = mobile_devices_path m then JList [] else JDict []), m)"
    by (auto simp: read_json_file_def fallback_def)
  have "fst (read_json_file load m fs2 p) = Inr data"
    if "file_holds fs2 p text2" "load text2 = Inr data" for fs2 text2 data
    using that assms(1) by (simp add: read_json_file_uncached open_r_holds)
  with r assms(1) show ?thesis by auto
qed

theorem read_json_file_fallback_witness:
  "read_json_file sample_load sample_manager config_fs (mobile_devices_path sample_manager)
     = (Inr (JList []), sample_manager)
   \<and> read_json_file sample_load sample_manager config_fs (telegram_entities_path sample_manager)
     = (Inr (JDict []), sample_manager)
   \<and> read_json_file sample_load sample_manager
        (fs_with (mobile_devices_path sample_manager) ''[{'') (mobile_devices_path sample_manager)
     = (Inr (JList []), sample_manager)
   \<and> fst (read_json_file sample_load
        (snd (read_json_file sample_load sample_manager
           (fs_with (mobile_devices_path sample_manager) ''[{'') (mobile_devices_path sample_manager)))
        (fs_with (mobile_devices_path sample_manager) devices_text)
        (mobile_devices_path sample_manager))
     = Inr (JList [device_A, device_B])"
proof -
  let ?d = "mobile_devices_path sample_manager"
  let ?e = "telegram_entities_path sample_manager"
  let ?bad = "fs_with ?d ''[{''"
  let ?good = "fs_with ?d devices_text"
  have ne: "?e \<noteq> ?d" by (simp add: sample_defs)
  have cd: "config_cache sample_manager ?d = None" and ce: "config_cache sample_manager ?e = None"
    by (simp_all add: sample_defs)
  have ad: "file_missing config_fs ?d
      \<or> (\<exists>text. file_holds config_fs ?d text \<and> sample_load text = Inl JSONDecodeError)"
    and ae: "file_missing config_fs ?e
      \<or> (\<exists>text. file_holds config_fs ?e text \<and> sample_load text = Inl JSONDecodeError)"
    by (simp_all add: file_missing_def path_prefixes_def sample_defs)
  have "file_holds ?bad ?d ''[{'' \<and> sample_load ''[{'' = Inl JSONDecodeError"
    by (simp add: file_holds_def path_prefixes_def sample_defs)
  then have ab: "file_missing ?bad ?d
      \<or> (\<exists>text. file_holds ?bad ?d text \<and> sample_load text = Inl JSONDecodeError)"
    by blast
  have g: "file_holds ?good ?d devices_text
      \<and> sample_load devices_text = Inr (JList [device_A, device_B])"
    by (simp add: file_holds_def path_prefixes_def sample_defs)
  note t1 = read_json_file_fallback [OF cd ad]
  note t2 = read_json_file_fallback [OF ce ae]
  note t3 = read_json_file_fallback [OF cd ab]
  from t3 g have t4: "fst (read_json_file sample_load
        (snd (read_json_file sample_load sample_manager ?bad ?d)) ?good ?d)
     = Inr (JList [device_A, device_B])"
    by blast
  from t1 t2 t3 t4 ne show ?thesis by simp
qed

text \<open>
  The claim as the spec words it asks only that the file is missing.  Where a file named
  \<^verbatim>\<open>config\<close> stands in the place of the configuration directory, the device list is
  missing and opening it raises \<^verbatim>\<open>NotADirectoryError\<close>; where access is refused,
  opening it raises \<^verbatim>\<open>PermissionError\<close>.  Line 68 catches neither, so the call
  raises instead of returning the empty list.
\<close>

theorem read_json_file_missing_counterexample:
  "config_cache sample_manager (mobile_devices_path sample_manager) = None
   \<and> entry (fs_with [''config''] ''x'') (mobile_devices_path sample_manager) = Absent
   \<and> read_json_file sample_load sample_manager (fs_with [''config''] ''x'')
        (mobile_devices_path sample_manager)
       = (Inl NotADirectoryError, sample_manager)
   \<and> entry (config_fs\<lparr>unreadable := (\<lambda>p. True)\<rparr>) (mobile_devices_path sample_manager) = Absent
   \<and> read_json_file sample_load sample_manager (config_fs\<lparr>unreadable := (\<lambda>p. True)\<rparr>)
        (mobile_devices_path sample_manager)
       = (Inl PermissionError, sample_manager)"
  by (simp add: read_json_file_def open_r_def sample_defs)

section \<open>Looking a device up by name\<close>

lemma key_eq_JStr [simp]: "key_eq k (JStr q) = (k = JStr q)"
  by (cases k) auto

lemma dict_get_setitem_str:
  "dict_get (dict_setitem acc k v) (JStr q) =
     (if k = JStr q then Some v else dict_get acc (JStr q))"
  by (induction acc k v rule: dict_setitem.induct) auto

lemma find_append_case:
  "find P (xs @ ys) = (case find P xs of None \<Rightarrow> find P ys | Some x \<Rightarrow> Some x)"
  by (induction xs) auto

lemma build_index_ok:
  "list_all has_hashable_name ds \<Longrightarrow>
   \<exists>index. build_index acc ds = Inr index \<and>
     dict_get index (JStr q) =
       (case find (named q) (rev ds) of Some d \<Rightarrow> Some d | None \<Rightarrow> dict_get acc (JStr q))"
proof (induction ds arbitrary: acc)
  case Nil
  then show ?case by simp
next
  case (Cons d ds)
  from Cons.prems obtain name where n: "subscript d ''name'' = Inr name" "hashable name"
    by (auto simp: has_hashable_name_def split: sum.splits)
  from Cons.prems have "list_all has_hashable_name ds" by simp
  from Cons.IH [OF this, of "dict_setitem acc name d"] obtain index where
    i: "build_index (dict_setitem acc name d) ds = Inr index"
      "dict_get index (JStr q) =
         (case find (named q) (rev ds) of Some d \<Rightarrow> Some d
          | None \<Rightarrow> dict_get (dict_setitem acc name d) (JStr q))"
    by blast
  have b: "build_index acc (d # ds) = Inr index" using n i(1) by simp
  have "dict_get index (JStr q) =
      (case find (named q) (rev (d # ds)) of Some d \<Rightarrow> Some d | None \<Rightarrow> dict_get acc (JStr q))"
    using i(2) n(1)
    by (simp add: find_append_case dict_get_setitem_str named_def split: option.splits)
  with b show ?case by blast
qed

lemma subscript_exn: "subscript d k = Inl e \<Longrightarrow> e = KeyError \<or> e = TypeError"
  by (cases d) (auto split: option.splits)

lemma build_index_exn: "build_index acc ds = Inl e \<Longrightarrow> e = KeyError \<or> e = TypeError"
proof (induction ds arbitrary: acc)
  case Nil
  then show ?case by simp
next
  case (Cons d ds)
  then show ?case
    by (auto split: sum.splits if_splits dest: subscript_exn)
qed

lemma build_index_raises:
  "d \<in> set ds \<Longrightarrow> subscript d ''name'' = Inl e \<Longrightarrow> \<exists>e'. build_index acc ds = Inl e'"
proof (induction ds arbitrary: acc)
  case Nil
  then show ?case by simp
next
  case (Cons x ds)
  show ?case
  proof (cases "subscript x ''name''")
    case (Inl a)
    then show ?thesis by simp
  next
    case (Inr name)
    with Cons.prems have "d \<in> set ds" by auto
    from Cons.IH [OF this Cons.prems(2)] Inr show ?thesis by simp
  qed
qed

lemma get_mobile_devices_device_index:
  "get_mobile_devices load m fs = (r, m1) \<Longrightarrow> device_index m1 = device_index m"
  using read_json_file_device_index [of load m fs "mobile_devices_path m"]
  by (simp add: get_mobile_devices_def)

lemma get_device_by_name_unbuilt:
  assumes "device_index m = None" and "get_mobile_devices load m fs = (Inr (JList ds), m1)"
  shows "get_device_by_name load m fs q =
     (case build_index [] ds of
        Inl err \<Rightarrow> (Inl err, m1)
      | Inr index \<Rightarrow> (Inr (dict_get index (JStr q)), m1\<lparr>device_index := Some index\<rparr>))"
proof -
  from assms have "device_index m1 = None"
    by (simp add: get_mobile_devices_device_index)
  with assms(2) show ?thesis
    by (simp add: get_device_by_name_def split: sum.splits)
qed

lemma get_device_by_name_built:
  assumes "device_index m = Some index" and "get_mobile_devices load m fs = (Inr devices, m1)"
  shows "get_device_by_name load m fs q = (Inr (dict_get index (JStr q)), m1)"
proof -
  from assms have "device_index m1 = Some index"
    by (simp add: get_mobile_devices_device_index)
  with assms(2) show ?thesis
    by (simp add: get_device_by_name_def)
qed

text \<open>
  Claim C3, as amended.  Take a device list whose records all carry a \<^verbatim>\<open>"name"\<close> field
  holding a hashable value (a string, a number, a boolean or null), and a device index
  that has not been built or was built from this very list.  Then
  \<^verbatim>\<open>get_device_by_name(q)\<close> returns the last record of the list whose \<^verbatim>\<open>"name"\<close> is the
  string \<open>q\<close>, and \<^verbatim>\<open>None\<close> when no record has that name; and it leaves the index built
  from this list, so that the same holds for every later lookup while the list stays as
  it is.
\<close>

theorem get_device_by_name_last_match:
  assumes "get_mobile_devices load m fs = (Inr (JList ds), m1)"
    and "list_all has_hashable_name ds"
    and "device_index m = None
         \<or> (\<exists>index0. device_index m = Some index0 \<and> build_index [] ds = Inr index0)"
  shows "\<exists>index. build_index [] ds = Inr index
           \<and> get_device_by_name load m fs q
               = (Inr (find (named q) (rev ds)), m1\<lparr>device_index := Some index\<rparr>)"
proof -
  from build_index_ok [OF assms(2), of "[]" q] obtain index where
    i: "build_index [] ds = Inr index"
      "dict_get index (JStr q) =
         (case find (named q) (rev ds) of Some d \<Rightarrow> Some d | None \<Rightarrow> dict_get [] (JStr q))"
    by blast
  from i(2) have g: "dict_get index (JStr q) = find (named q) (rev ds)"
    by (simp split: option.splits)
  from assms(3) show ?thesis
  proof
    assume "device_index m = None"
    from get_device_by_name_unbuilt [OF this assms(1), of q] i(1) g show ?thesis by simp
  next
    assume "\<exists>index0. device_index m = Some index0 \<and> build_index [] ds = Inr index0"
    with i(1) have b: "device_index m = Some index" by auto
    with assms(1) have "device_index m1 = Some index"
      by (simp add: get_mobile_devices_device_index)
    then have "m1\<lparr>device_index := Some index\<rparr> = m1" by simp
    with get_device_by_name_built [OF b assms(1), of q] i(1) g show ?thesis by simp
  qed
qed

theorem get_device_by_name_last_match_witness:
  "fst (get_device_by_name sample_load sample_manager
          (fs_with (mobile_devices_path sample_manager) devices_text) ''B'') = Inr (Some device_B)
   \<and> fst (get_device_by_name sample_load sample_manager
          (fs_with (mobile_devices_path sample_manager) devices_text) ''C'') = Inr None
   \<and> fst (get_device_by_name sample_load
          (snd (get_device_by_name sample_load sample_manager
                  (fs_with (mobile_devices_path sample_manager) devices_text) ''B''))
          (fs_with (mobile_devices_path sample_manager) devices_text) ''A'') = Inr (Some device_A)"
proof -
  let ?fs = "fs_with (mobile_devices_path sample_manager) devices_text"
  let ?m1 = "sample_manager\<lparr>config_cache :=
    [mobile_devices_path sample_manager \<mapsto> JList [device_A, device_B]]\<rparr>"
  have u: "device_index sample_manager = None
      \<or> (\<exists>index0. device_index sample_manager = Some index0
            \<and> build_index [] [device_A, device_B] = Inr index0)"
    by (simp add: sample_defs)
  have g: "get_mobile_devices sample_load sample_manager ?fs
             = (Inr (JList [device_A, device_B]), ?m1)"
    by (simp add: get_mobile_devices_def read_json_file_def open_r_def sample_defs)
  have h: "list_all has_hashable_name [device_A, device_B]"
    by (simp add: has_hashable_name_def device_A_def device_B_def)
  have a: "find (named ''A'') (rev [device_A, device_B]) = Some device_A"
    and b: "find (named ''B'') (rev [device_A, device_B]) = Some device_B"
    and c: "find (named ''C'') (rev [device_A, device_B]) = None"
    by (simp_all add: named_def device_A_def device_B_def)
  from get_device_by_name_last_match [OF g h u, of "''B''"] b obtain index where
    i: "build_index [] [device_A, device_B] = Inr index"
    and first: "get_device_by_name sample_load sample_manager ?fs ''B''
        = (Inr (Some device_B), ?m1\<lparr>device_index := Some index\<rparr>)"
    by auto
  from get_device_by_name_last_match [OF g h u, of "''C''"] c
  have none: "fst (get_device_by_name sample_load sample_manager ?fs ''C'') = Inr None"
    by auto
  let ?m2 = "?m1\<lparr>device_index := Some index\<rparr>"
  have g2: "get_mobile_devices sample_load ?m2 ?fs = (Inr (JList [device_A, device_B]), ?m2)"
    by (simp add: get_mobile_devices_def read_json_file_def sample_manager_def new_manager_def)
  from i have u2: "device_index ?m2 = None
      \<or> (\<exists>index0. device_index ?m2 = Some index0
            \<and> build_index [] [device_A, device_B] = Inr index0)"
    by simp
  from get_device_by_name_last_match [OF g2 h u2, of "''A''"] a
  have "fst (get_device_by_name sample_load ?m2 ?fs ''A'') = Inr (Some device_A)"
    by auto
  with first none show ?thesis by simp
qed

text \<open>
  The claim as the spec words it fails in two ways.  It asks only that every record
  carries a \<^verbatim>\<open>"name"\<close> field: the list \<^verbatim>\<open>[{"name": []}]\<close> is such a list, and the
  call raises \<^verbatim>\<open>TypeError\<close> on it, a list being no dictionary key.  And it speaks of
  the device list alone: after a lookup on the empty device list and a write of the list
  of the devices A and B, the device list read is that list, and the lookup of B still
  answers \<^verbatim>\<open>None\<close> from the index built before the write.
\<close>

theorem get_device_by_name_counterexample:
  "device_index sample_manager = None
   \<and> fst (get_mobile_devices sample_load sample_manager
            (fs_with (mobile_devices_path sample_manager) unhashable_text))
       = Inr (JList [JDict [(''name'', JList [])]])
   \<and> list_all has_name [JDict [(''name'', JList [])]]
   \<and> fst (get_device_by_name sample_load sample_manager
            (fs_with (mobile_devices_path sample_manager) unhashable_text) ''A'') = Inl TypeError
   \<and> fst (write_json_file sample_dump lookup_done
            (fs_with (mobile_devices_path sample_manager) ''[]'')
            (mobile_devices_path sample_manager) (JList [device_A, device_B])) = True
   \<and> fst (get_mobile_devices sample_load write_done
            (fs_with (mobile_devices_path sample_manager) devices_text))
       = Inr (JList [device_A, device_B])
   \<and> list_all has_name [device_A, device_B]
   \<and> fst (get_device_by_name sample_load write_done
            (fs_with (mobile_devices_path sample_manager) devices_text) ''B'') = Inr None"
proof -
  let ?d = "mobile_devices_path sample_manager"
  have l: "lookup_done = sample_manager\<lparr>config_cache := [?d \<mapsto> JList []], device_index := Some []\<rparr>"
    by (simp add: lookup_done_def get_device_by_name_def get_mobile_devices_def read_json_file_def
        open_r_def sample_defs)
  have w: "write_json_file sample_dump lookup_done (fs_with ?d ''[]'') ?d (JList [device_A, device_B])
      = (True, lookup_done\<lparr>config_cache := (config_cache lookup_done)(?d \<mapsto> JList [device_A, device_B])\<rparr>,
         fs_with ?d devices_text)"
    by (simp add: write_json_file_def open_w_def sample_defs)
  then have wd: "write_done
      = lookup_done\<lparr>config_cache := (config_cache lookup_done)(?d \<mapsto> JList [device_A, device_B])\<rparr>"
    by (simp add: write_done_def)
  have c: "config_cache write_done ?d = Some (JList [device_A, device_B])"
    and i: "device_index write_done = Some []"
    and p: "mobile_devices_path write_done = ?d"
    by (simp_all add: wd l)
  from c p have g: "get_mobile_devices sample_load write_done (fs_with ?d devices_text)
      = (Inr (JList [device_A, device_B]), write_done)"
    by (simp add: get_mobile_devices_def read_json_file_def)
  from get_device_by_name_built [OF i g, of "''B''"]
  have s: "fst (get_device_by_name sample_load write_done (fs_with ?d devices_text) ''B'') = Inr None"
    by simp
  have u: "device_index sample_manager = None
   \<and> fst (get_mobile_devices sample_load sample_manager (fs_with ?d unhashable_text))
       = Inr (JList [JDict [(''name'', JList [])]])
   \<and> list_all has_name [JDict [(''name'', JList [])]]
   \<and> fst (get_device_by_name sample_load sample_manager (fs_with ?d unhashable_text) ''A'')
       = Inl TypeError"
    by (simp add: get_device_by_name_def get_mobile_devices_def read_json_file_def open_r_def
        has_name_def sample_defs)
  have n: "list_all has_name [device_A, device_B]"
    by (simp add: has_name_def device_A_def device_B_def)
  from u w g s n show ?thesis by simp
qed

text \<open>
  Claim C10.  While the device index has not been built, a device list with a record
  that lacks the \<^verbatim>\<open>"name"\<close> key makes \<^verbatim>\<open>get_device_by_name\<close> raise: the call ends in
  \<^verbatim>\<open>KeyError\<close> (or in the \<^verbatim>\<open>TypeError\<close> of an earlier record), returns neither a
  record nor \<^verbatim>\<open>None\<close>, and leaves the index unbuilt.
\<close>

theorem get_device_by_name_missing_name_raises:
  assumes "device_index m = None"
    and "get_mobile_devices load m fs = (Inr (JList ds), m1)"
    and "JDict kvs \<in> set ds"
    and "map_of kvs ''name'' = None"
  shows "\<exists>e. get_device_by_name load m fs q = (Inl e, m1) \<and> (e = KeyError \<or> e = TypeError)"
proof -
  from assms(4) have "subscript (JDict kvs) ''name'' = Inl KeyError" by simp
  from build_index_raises [OF assms(3) this, of "[]"] obtain e where
    e: "build_index [] ds = Inl e" by blast
  then have "e = KeyError \<or> e = TypeError" by (rule build_index_exn)
  with e get_device_by_name_unbuilt [OF assms(1,2), of q] show ?thesis by simp
qed

theorem get_device_by_name_missing_name_raises_witness:
  "get_device_by_name sample_load sample_manager
      (fs_with (mobile_devices_path sample_manager) nameless_text) ''A''
     = (Inl KeyError,
        sample_manager\<lparr>config_cache := [mobile_devices_path sample_manager \<mapsto>
          JList [device_A, JDict [(''id'', JInt 2)]]]\<rparr>)"
proof -
  let ?fs = "fs_with (mobile_devices_path sample_manager) nameless_text"
  let ?m1 = "sample_manager\<lparr>config_cache := [mobile_devices_path sample_manager \<mapsto>
          JList [device_A, JDict [(''id'', JInt 2)]]]\<rparr>"
  have u: "device_index sample_manager = None" by (simp add: sample_defs)
  have g: "get_mobile_devices sample_load sample_manager ?fs
             = (Inr (JList [device_A, JDict [(''id'', JInt 2)]]), ?m1)"
    by (simp add: get_mobile_devices_def read_json_file_def open_r_def sample_defs)
  have i: "JDict [(''id'', JInt 2)] \<in> set [device_A, JDict [(''id'', JInt 2)]]" by simp
  have n: "map_of [(''id'', JInt 2)] ''name'' = None" by simp
  have k: "get_device_by_name sample_load sample_manager ?fs ''A'' \<noteq> (Inl TypeError, ?m1)"
    by (simp add: get_device_by_name_def get_mobile_devices_def read_json_file_def open_r_def
        sample_defs)
  from get_device_by_name_missing_name_raises [OF u g i n, of "''A''"] k
  show ?thesis by auto
qed

section \<open>Invalidating the cache\<close>

lemma get_device_by_name_rebuild:
  assumes "device_index m = None"
  shows "get_device_by_name load m fs q =
     (case get_mobile_devices load m fs of
        (Inl err, m1) \<Rightarrow> (Inl err, m1)
      | (Inr devices, m1) \<Rightarrow>
          (case iterate devices of
             Inl err \<Rightarrow> (Inl err, m1)
           | Inr ds \<Rightarrow>
               (case build_index [] ds of
                  Inl err \<Rightarrow> (Inl err, m1)
                | Inr index \<Rightarrow>
                    (Inr (dict_get index (JStr q)), m1\<lparr>device_index := Some index\<rparr>))))"
proof (cases "get_mobile_devices load m fs")
  case (Pair r m1)
  with assms have "device_index m1 = None"
    by (simp add: get_mobile_devices_device_index)
  with Pair show ?thesis
    by (simp add: get_device_by_name_def split: sum.splits)
qed

text \<open>
  Claim C5.  \<^verbatim>\<open>invalidate_cache()\<close> empties the cache and drops the device index.  The
  next \<^verbatim>\<open>_read_json_file\<close> of any path then goes to the file: its result is what opening
  and parsing the file gives, whatever the cache held before.  The next
  \<^verbatim>\<open>get_device_by_name\<close> builds the index anew from the device list it reads, whatever the
  old index was.  \<^verbatim>\<open>invalidate_cache(path)\<close> removes the entry of that path only: every
  other entry, the device index and all other attributes stay as they were.
\<close>

theorem invalidate_cache_effect:
  "config_cache (invalidate_cache m None) = Map.empty
   \<and> device_index (invalidate_cache m None) = None
   \<and> fst (read_json_file load (invalidate_cache m None) fs p) =
       (case (case open_r fs p of Inl err \<Rightarrow> Inl err | Inr text \<Rightarrow> load text) of
          Inl err \<Rightarrow>
            if err = JSONDecodeError \<or> err = FileNotFoundError then Inr (fallback m p)
            else Inl err
        | Inr data \<Rightarrow> Inr data)
   \<and> get_device_by_name load (invalidate_cache m None) fs q =
       (case get_mobile_devices load (invalidate_cache m None) fs of
          (Inl err, m1) \<Rightarrow> (Inl err, m1)
        | (Inr devices, m1) \<Rightarrow>
            (case iterate devices of
               Inl err \<Rightarrow> (Inl err, m1)
             | Inr ds \<Rightarrow>
                 (case build_index [] ds of
                    Inl err \<Rightarrow> (Inl err, m1)
                  | Inr index \<Rightarrow>
                      (Inr (dict_get index (JStr q)), m1\<lparr>device_index := Some index\<rparr>))))
   \<and> invalidate_cache m (Some p) = m\<lparr>config_cache := (config_cache m)(p := None)\<rparr>
   \<and> config_cache (invalidate_cache m (Some p)) p = None
   \<and> (\<forall>p'. p' \<noteq> p \<longrightarrow> config_cache (invalidate_cache m (Some p)) p' = config_cache m p')
   \<and> device_index (invalidate_cache m (Some p)) = device_index m"
proof -
  have a: "config_cache (invalidate_cache m None) = Map.empty"
    and b: "device_index (invalidate_cache m None) = None"
    by (simp_all add: invalidate_cache_def)
  have f: "fallback (invalidate_cache m None) p = fallback m p"
    by (simp add: fallback_def invalidate_cache_def)
  have c: "fst (read_json_file load (invalidate_cache m None) fs p) =
       (case (case open_r fs p of Inl err \<Rightarrow> Inl err | Inr text \<Rightarrow> load text) of
          Inl err \<Rightarrow>
            if err = JSONDecodeError \<or> err = FileNotFoundError then Inr (fallback m p)
            else Inl err
        | Inr data \<Rightarrow> Inr data)"
    using a f by (simp add: read_json_file_def split: sum.splits)
  note d = get_device_by_name_rebuild [OF b, of load fs q]
  have e: "invalidate_cache m (Some p) = m\<lparr>config_cache := (config_cache m)(p := None)\<rparr>"
    by (simp add: invalidate_cache_def)
  from a b c d e show ?thesis by simp
qed

theorem invalidate_cache_effect_witness:
  "fst (read_json_file sample_load stale_manager
          (fs_with (mobile_devices_path sample_manager) devices_text)
          (mobile_devices_path sample_manager)) = Inr (JList [])
   \<and> fst (read_json_file sample_load (invalidate_cache stale_manager None)
          (fs_with (mobile_devices_path sample_manager) devices_text)
          (mobile_devices_path sample_manager)) = Inr (JList [device_A, device_B])
   \<and> fst (get_device_by_name sample_load stale_manager
          (fs_with (mobile_devices_path sample_manager) devices_text) ''B'') = Inr None
   \<and> fst (get_device_by_name sample_load (invalidate_cache stale_manager None)
          (fs_with (mobile_devices_path sample_manager) devices_text) ''B'') = Inr (Some device_B)
   \<and> config_cache (invalidate_cache stale_manager (Some (mobile_devices_path sample_manager)))
        (mobile_devices_path sample_manager) = None
   \<and> config_cache (invalidate_cache stale_manager (Some (mobile_devices_path sample_manager)))
        (telegram_entities_path sample_manager) = Some (JDict [])
   \<and> device_index (invalidate_cache stale_manager (Some (mobile_devices_path sample_manager)))
        = Some []"
proof -
  let ?d = "mobile_devices_path sample_manager"
  let ?e = "telegram_entities_path sample_manager"
  let ?fs = "fs_with ?d devices_text"
  note t = invalidate_cache_effect [of stale_manager sample_load ?fs ?d "''B''"]
  have ne: "?e \<noteq> ?d" by (simp add: sample_defs)
  have o: "open_r ?fs ?d = Inr devices_text" by (simp add: open_r_def sample_defs)
  have l: "sample_load devices_text = Inr (JList [device_A, device_B])"
    by (simp add: sample_defs)
  have s1: "fst (read_json_file sample_load stale_manager ?fs ?d) = Inr (JList [])"
    using ne by (simp add: read_json_file_def stale_manager_def)
  have s3: "fst (get_device_by_name sample_load stale_manager ?fs ''B'') = Inr None"
    using ne by (simp add: get_device_by_name_def get_mobile_devices_def read_json_file_def
        stale_manager_def sample_manager_def)
  from t o l have s2: "fst (read_json_file sample_load (invalidate_cache stale_manager None) ?fs ?d)
      = Inr (JList [device_A, device_B])"
    by simp
  have md: "mobile_devices_path (invalidate_cache stale_manager None) = ?d"
    by (simp add: invalidate_cache_def stale_manager_def)
  have cc: "config_cache (invalidate_cache stale_manager None) ?d = None"
    using t by simp
  have g: "get_mobile_devices sample_load (invalidate_cache stale_manager None) ?fs
      = (Inr (JList [device_A, device_B]),
         (invalidate_cache stale_manager None)\<lparr>config_cache :=
            (config_cache (invalidate_cache stale_manager None))(?d \<mapsto> JList [device_A, device_B])\<rparr>)"
    using o l cc by (simp add: get_mobile_devices_def read_json_file_def md)
  have bi: "build_index [] [device_A, device_B]
      = Inr [(JStr ''A'', device_A), (JStr ''B'', device_B)]"
    by (simp add: device_A_def device_B_def)
  from t g bi have s4: "fst (get_device_by_name sample_load (invalidate_cache stale_manager None)
      ?fs ''B'') = Inr (Some device_B)"
    by simp
  from t have s5: "config_cache (invalidate_cache stale_manager (Some ?d)) ?d = None"
    by blast
  from t ne have "config_cache (invalidate_cache stale_manager (Some ?d)) ?e
      = config_cache stale_manager ?e"
    by blast
  with ne have s6: "config_cache (invalidate_cache stale_manager (Some ?d)) ?e = Some (JDict [])"
    by (simp add: stale_manager_def)
  from t have "device_index (invalidate_cache stale_manager (Some ?d)) = device_index stale_manager"
    by blast
  then have s7: "device_index (invalidate_cache stale_manager (Some ?d)) = Some []"
    by (simp add: stale_manager_def)
  from s1 s2 s3 s4 s5 s6 s7 show ?thesis by blast
qed

section \<open>Reading the environment settings\<close>

lemma update_append_fresh:
  "k \<notin> fst ` set pre \<Longrightarrow> AList.update k v (pre @ xs) = pre @ AList.update k v xs"
  by (induction pre) auto

lemma map_of_append_fresh:
  "k \<notin> fst ` set pre \<Longrightarrow> map_of (pre @ xs) k = map_of xs k"
  by (induction pre) auto

lemma get_env_loop_map:
  "distinct (map fst (pre @ rest)) \<Longrightarrow>
   get_env_loop w (pre @ rest) (map fst rest)
     = Inr (pre @ map (\<lambda>kv. (fst kv, getenv w (fst kv) (snd kv))) rest)"
proof (induction rest arbitrary: pre)
  case Nil
  then show ?case by simp
next
  case (Cons kv rest)
  obtain k d where kv: "kv = (k, d)" by (cases kv)
  from Cons.prems kv have fresh: "k \<notin> fst ` set pre" by auto
  from Cons.prems kv have "distinct (map fst ((pre @ [(k, getenv w k d)]) @ rest))" by auto
  from Cons.IH [OF this]
  have "get_env_loop w (pre @ (k, getenv w k d) # rest) (map fst rest)
     = Inr (pre @ (k, getenv w k d) # map (\<lambda>kv. (fst kv, getenv w (fst kv) (snd kv))) rest)"
    by simp
  moreover have "map_of (pre @ (k, d) # rest) k = Some d"
    using map_of_append_fresh [OF fresh, of "(k, d) # rest"] by simp
  moreover
  have "AList.update k (getenv w k d) (pre @ (k, d) # rest) = pre @ (k, getenv w k d) # rest"
    using update_append_fresh [OF fresh, of "getenv w k d" "(k, d) # rest"] by simp
  ultimately show ?case
    by (simp add: kv del: map_of_append)
qed

text \<open>
  Claim C7.  \<^verbatim>\<open>get_env_settings\<close> returns the default dictionary with the value of each
  key replaced by the process environment variable of that name when it is set; a key
  whose variable is not set keeps its default, which is the empty string for the defaults
  \<^verbatim>\<open>__init__\<close> installs.  The keys are those of the defaults, in their order, and the
  result does not depend on the file system.  The hypothesis is the invariant of a Python
  dictionary: no key occurs twice.
\<close>

theorem get_env_settings_defaults_overridden:
  assumes "distinct (map fst (default_env_settings m))"
  shows "get_env_settings m w
           = Inr (map (\<lambda>kv. (fst kv, case environ w (fst kv) of Some v \<Rightarrow> v | None \<Rightarrow> snd kv))
                   (default_env_settings m))
       \<and> (\<exists>env_vars. get_env_settings m w = Inr env_vars
             \<and> map fst env_vars = map fst (default_env_settings m))
       \<and> get_env_settings m (w\<lparr>files := fs\<rparr>) = get_env_settings m w"
proof -
  from assms have "distinct (map fst ([] @ default_env_settings m))" by simp
  from get_env_loop_map [OF this]
  have r: "get_env_settings m w'
           = Inr (map (\<lambda>kv. (fst kv, getenv w' (fst kv) (snd kv))) (default_env_settings m))"
    for w'
    by (simp add: get_env_settings_def)
  have "map fst (map (\<lambda>kv. (fst kv, getenv w (fst kv) (snd kv))) (default_env_settings m))
      = map fst (default_env_settings m)"
    by (simp add: comp_def)
  with r [of w] r [of "w\<lparr>files := fs\<rparr>"] show ?thesis
    by (simp add: getenv_def)
qed

theorem get_env_settings_defaults_overridden_witness:
  "get_env_settings (new_manager [''config''])
      \<lparr>files = config_fs, environ = [''TELEGRAM_API_ID'' \<mapsto> ''12345'', ''HOME'' \<mapsto> ''/root'']\<rparr>
     = Inr [(''TELEGRAM_API_ID'', ''12345'')]
   \<and> get_env_settings (new_manager [''config''])
      \<lparr>files = config_fs, environ = [''HOME'' \<mapsto> ''/root'']\<rparr>
     = Inr [(''TELEGRAM_API_ID'', '''')]"
proof -
  have d: "distinct (map fst (default_env_settings (new_manager [''config''])))"
    by (simp add: new_manager_def)
  from get_env_settings_defaults_overridden [OF d,
      of "\<lparr>files = config_fs, environ = [''TELEGRAM_API_ID'' \<mapsto> ''12345'', ''HOME'' \<mapsto> ''/root'']\<rparr>"]
    get_env_settings_defaults_overridden [OF d,
      of "\<lparr>files = config_fs, environ = [''HOME'' \<mapsto> ''/root'']\<rparr>"]
  show ?thesis by (simp add: new_manager_def)
qed

section \<open>Saving the environment settings\<close>

subsection \<open>The lines of a text\<close>





subsection \<open>The key and the value of a line\<close>














subsection \<open>The dictionary read from the file\<close>







subsection \<open>The file written\<close>




lemmas env_eval_defs =
  save_env_settings_def read_env_file_def exists_path_def open_r_def open_w_def
  env_line_def LF_def CR_def SQUOTE_def DQUOTE_def split_first_def strip_ws_def
  strip_chars_def strip_by_def isspace_def dict_update_def


text \<open>
  Claim C1.  The existing file holds \<^verbatim>\<open>TELEGRAM_API_ID='12345'\<close> and the new values
  are \<^verbatim>\<open>{"BAR": "2"}\<close>.  The key is a default key, is in the file and is not among
  the new values, and the file written holds \<^verbatim>\<open>TELEGRAM_API_ID=''\<close>: line 103 updates
  the values read from the file with the defaults, so the default has replaced the
  file's value.
\<close>

theorem save_env_settings_default_replaces_existing:
  "read_env_file sample_manager
      (fs_with (env_file_path sample_manager) (env_line ''TELEGRAM_API_ID'' ''12345''))
     = Inr [(''TELEGRAM_API_ID'', ''12345'')]
   \<and> save_env_settings sample_manager
      (fs_with (env_file_path sample_manager) (env_line ''TELEGRAM_API_ID'' ''12345''))
      [(''BAR'', ''2'')]
     = (True,
        fs_with (env_file_path sample_manager)
          (env_line ''BAR'' ''2'' @ env_line ''TELEGRAM_API_ID'' ''''))"
  by (simp add: env_eval_defs sample_defs)

section \<open>Initialisation touches no file that exists\<close>

lemma mkdir_exist_ok_entry:
  "mkdir_exist_ok fs q = Inr fs1 \<Longrightarrow>
   entry fs1 q = Directory \<and> (\<forall>p. entry fs p \<noteq> Absent \<longrightarrow> entry fs1 p = entry fs p)
   \<and> unwritable fs1 = unwritable fs"
  by (auto simp: mkdir_exist_ok_def split: fentry.splits if_splits)

lemma mkdir_parents_entry:
  "mkdir_parents fs pre cs = Inr fs1 \<Longrightarrow>
   (\<forall>p. entry fs p \<noteq> Absent \<longrightarrow> entry fs1 p = entry fs p) \<and> unwritable fs1 = unwritable fs"
proof (induction cs arbitrary: fs pre)
  case Nil
  then show ?case by simp
next
  case (Cons c cs)
  from Cons.prems obtain fsa where a: "mkdir_exist_ok fs (pre @ [c]) = Inr fsa"
    and r: "mkdir_parents fsa (pre @ [c]) cs = Inr fs1"
    by (auto split: sum.splits)
  from mkdir_exist_ok_entry [OF a] Cons.IH [OF r] show ?case by auto
qed

lemma mkdir_parents_again:
  "mkdir_parents fs pre cs = Inr fs1 \<Longrightarrow>
   (\<forall>p. entry fs1 p \<noteq> Absent \<longrightarrow> entry fs2 p = entry fs1 p) \<Longrightarrow>
   mkdir_parents fs2 pre cs = Inr fs2"
proof (induction cs arbitrary: fs pre)
  case Nil
  then show ?case by simp
next
  case (Cons c cs)
  from Cons.prems(1) obtain fsa where a: "mkdir_exist_ok fs (pre @ [c]) = Inr fsa"
    and r: "mkdir_parents fsa (pre @ [c]) cs = Inr fs1"
    by (auto split: sum.splits)
  from mkdir_exist_ok_entry [OF a] have "entry fsa (pre @ [c]) = Directory" by simp
  with mkdir_parents_entry [OF r] have "entry fs1 (pre @ [c]) = Directory" by simp
  with Cons.prems(2) have "entry fs2 (pre @ [c]) = Directory" by simp
  then have "mkdir_exist_ok fs2 (pre @ [c]) = Inr fs2" by (simp add: mkdir_exist_ok_def)
  with Cons.IH [OF r Cons.prems(2)] show ?case by simp
qed

lemma create_file_entry:
  "entry (create_file fs q text) p =
     (if p = q \<and> \<not> unwritable fs q \<and> walk fs (proper_ancestors q) = None
         \<and> entry fs q \<noteq> Directory
      then Regular text else entry fs p)"
  by (simp add: create_file_def open_w_def write_text_def split: fentry.splits option.splits)

lemma create_file_unwritable: "unwritable (create_file fs q text) = unwritable fs"
  by (simp add: create_file_def open_w_def write_text_def split: fentry.splits option.splits)

lemma create_file_blocked:
  "unwritable fs q \<or> walk fs (proper_ancestors q) \<noteq> None \<Longrightarrow> create_file fs q text = fs"
  by (auto simp: create_file_def open_w_def)

lemma walk_same_directories:
  "(\<And>a. (entry fs' a = Directory) = (entry fs a = Directory)) \<Longrightarrow>
   (walk fs' qs = None) = (walk fs qs = None)"
proof (induction qs)
  case Nil
  then show ?case by simp
next
  case (Cons q qs)
  from Cons.prems [of q] Cons.IH [OF Cons.prems] show ?case
    by (cases "entry fs q"; cases "entry fs' q") simp_all
qed

lemma create_if_missing_entry:
  "entry fs p \<noteq> Absent \<Longrightarrow> entry (create_if_missing fs q text) p = entry fs p"
  by (auto simp: create_if_missing_def exists_path_def create_file_entry)

lemma create_if_missing_directory:
  "(entry (create_if_missing fs q text) a = Directory) = (entry fs a = Directory)"
  by (auto simp: create_if_missing_def create_file_entry)

lemma create_if_missing_unwritable:
  "unwritable (create_if_missing fs q text) = unwritable fs"
  by (simp add: create_if_missing_def create_file_unwritable)

lemma create_if_missing_blocked:
  "(unwritable (create_if_missing fs q text) p
      \<or> walk (create_if_missing fs q text) (proper_ancestors p) \<noteq> None)
   = (unwritable fs p \<or> walk fs (proper_ancestors p) \<noteq> None)"
  using walk_same_directories [of "create_if_missing fs q text" fs "proper_ancestors p"]
  by (simp add: create_if_missing_unwritable create_if_missing_directory)

lemma create_if_missing_settled:
  "entry (create_if_missing fs q text) q \<noteq> Absent
   \<or> unwritable fs q \<or> walk fs (proper_ancestors q) \<noteq> None"
  by (auto simp: create_if_missing_def exists_path_def create_file_entry)

lemma create_if_missing_skip:
  "entry fs q \<noteq> Absent \<or> unwritable fs q \<or> walk fs (proper_ancestors q) \<noteq> None \<Longrightarrow>
   create_if_missing fs q text = fs"
  by (auto simp: create_if_missing_def exists_path_def create_file_blocked)

lemma initialize_config_files_steps:
  "initialize_config_files m fs =
     create_if_missing
       (create_if_missing
          (create_if_missing fs (example_env_file m)
             (concat (map (\<lambda>kv. fst kv @ [CHR ''='', DQUOTE, DQUOTE, LF]) (default_env_settings m))))
          (mobile_devices_path m) ''[]'')
       (telegram_entities_path m) ''{}''"
  by (simp add: initialize_config_files_def create_if_missing_def create_example_env_def
      create_default_devices_def create_empty_telegram_entities_def Let_def)

lemma initialize_config_files_entry:
  "entry fs p \<noteq> Absent \<Longrightarrow> entry (initialize_config_files m fs) p = entry fs p"
  by (simp add: initialize_config_files_steps create_if_missing_entry)

lemma initialize_config_files_again:
  "initialize_config_files m (initialize_config_files m fs) = initialize_config_files m fs"
proof -
  let ?t = "concat (map (\<lambda>kv. fst kv @ [CHR ''='', DQUOTE, DQUOTE, LF]) (default_env_settings m))"
  let ?f1 = "create_if_missing fs (example_env_file m) ?t"
  let ?f2 = "create_if_missing ?f1 (mobile_devices_path m) ''[]''"
  let ?f3 = "create_if_missing ?f2 (telegram_entities_path m) ''{}''"
  have settled_later: "entry (create_if_missing f q t) p \<noteq> Absent
      \<or> unwritable (create_if_missing f q t) p
      \<or> walk (create_if_missing f q t) (proper_ancestors p) \<noteq> None"
    if "entry f p \<noteq> Absent \<or> unwritable f p \<or> walk f (proper_ancestors p) \<noteq> None"
    for f p q t
    using that create_if_missing_blocked [of f q t p] create_if_missing_entry [of f p q t]
    by auto
  have "entry ?f1 (example_env_file m) \<noteq> Absent \<or> unwritable ?f1 (example_env_file m)
      \<or> walk ?f1 (proper_ancestors (example_env_file m)) \<noteq> None"
    using create_if_missing_settled [of fs "example_env_file m" ?t]
      create_if_missing_blocked [of fs "example_env_file m" ?t "example_env_file m"]
    by auto
  then have a: "entry ?f3 (example_env_file m) \<noteq> Absent \<or> unwritable ?f3 (example_env_file m)
      \<or> walk ?f3 (proper_ancestors (example_env_file m)) \<noteq> None"
    by (rule settled_later [OF settled_later])
  have "entry ?f2 (mobile_devices_path m) \<noteq> Absent \<or> unwritable ?f2 (mobile_devices_path m)
      \<or> walk ?f2 (proper_ancestors (mobile_devices_path m)) \<noteq> None"
    using create_if_missing_settled [of ?f1 "mobile_devices_path m" "''[]''"]
      create_if_missing_blocked [of ?f1 "mobile_devices_path m" "''[]''" "mobile_devices_path m"]
    by auto
  then have b: "entry ?f3 (mobile_devices_path m) \<noteq> Absent \<or> unwritable ?f3 (mobile_devices_path m)
      \<or> walk ?f3 (proper_ancestors (mobile_devices_path m)) \<noteq> None"
    by (rule settled_later)
  have c: "entry ?f3 (telegram_entities_path m) \<noteq> Absent
      \<or> unwritable ?f3 (telegram_entities_path m)
      \<or> walk ?f3 (proper_ancestors (telegram_entities_path m)) \<noteq> None"
    using create_if_missing_settled [of ?f2 "telegram_entities_path m" "''{}''"]
      create_if_missing_blocked [of ?f2 "telegram_entities_path m" "''{}''" "telegram_entities_path m"]
    by auto
  have "initialize_config_files m ?f3 = ?f3"
    unfolding initialize_config_files_steps [of m ?f3]
    by (simp only: create_if_missing_skip [OF a] create_if_missing_skip [OF b]
        create_if_missing_skip [OF c])
  then show ?thesis by (simp only: initialize_config_files_steps [of m fs])
qed

text \<open>
  Claim C8.  Whenever \<^verbatim>\<open>__init__\<close> returns, every path that held a file or a directory
  before the call holds the same afterwards, so the example environment file, the device
  list file and the entities file are written only where they were missing; and a second
  call on the directory returns the same manager and leaves the whole file system as the
  first call left it.
\<close>

theorem init_idempotent:
  assumes "init dotenv dir w = Inr (m, w1)"
  shows "(\<forall>p. entry (files w) p \<noteq> Absent \<longrightarrow> entry (files w1) p = entry (files w) p)
       \<and> (\<exists>w2. init dotenv dir w1 = Inr (m, w2) \<and> files w2 = files w1)"
proof -
  from assms obtain fs1 where c: "check_config_dir (files w) dir = Inr fs1"
    and m: "m = new_manager dir"
    and f: "files w1 = initialize_config_files m fs1"
    by (auto simp: init_def Let_def split: sum.splits)
  from c have k: "mkdir_parents (files w) [] dir = Inr fs1" by (simp add: check_config_dir_def)
  have keep: "entry (files w1) p = entry (files w) p" if "entry (files w) p \<noteq> Absent" for p
  proof -
    from mkdir_parents_entry [OF k] that have "entry fs1 p = entry (files w) p" by simp
    with that f show ?thesis by (simp add: initialize_config_files_entry)
  qed
  have "\<forall>p. entry fs1 p \<noteq> Absent \<longrightarrow> entry (files w1) p = entry fs1 p"
    by (simp add: f initialize_config_files_entry)
  from mkdir_parents_again [OF k this]
  have "check_config_dir (files w1) dir = Inr (files w1)" by (simp add: check_config_dir_def)
  moreover have "initialize_config_files m (files w1) = files w1"
    by (simp add: f initialize_config_files_again)
  ultimately have "\<exists>w2. init dotenv dir w1 = Inr (m, w2) \<and> files w2 = files w1"
    by (simp add: init_def m Let_def)
  with keep show ?thesis by blast
qed

theorem init_idempotent_witness:
  "\<exists>m w1. init sample_dotenv [''config''] \<lparr>files = sample_config_fs, environ = Map.empty\<rparr>
             = Inr (m, w1)
     \<and> entry (files w1) [''config''] = Directory
     \<and> entry (files w1) [''config'', ''mobile_devices.json''] = Regular devices_text
     \<and> entry (files w1) [''config'', ''telegram_entities.json''] = Regular ''{}''
     \<and> entry (files w1) [''.env.example''] = Regular (''TELEGRAM_API_ID='' @ [DQUOTE, DQUOTE, LF])
     \<and> (\<exists>w2. init sample_dotenv [''config''] w1 = Inr (m, w2) \<and> files w2 = files w1)"
proof -
  let ?w = "\<lparr>files = sample_config_fs, environ = Map.empty\<rparr>"
  let ?w1 = "\<lparr>files = initialize_config_files sample_manager sample_config_fs,
              environ = Map.empty\<rparr>"
  have i: "init sample_dotenv [''config''] ?w = Inr (sample_manager, ?w1)"
    by (simp add: init_def check_config_dir_def mkdir_exist_ok_def sample_config_fs_def
        sample_dotenv_def sample_manager_def Let_def)
  have e: "entry (files ?w1) [''config''] = Directory
     \<and> entry (files ?w1) [''config'', ''mobile_devices.json''] = Regular devices_text
     \<and> entry (files ?w1) [''config'', ''telegram_entities.json''] = Regular ''{}''
     \<and> entry (files ?w1) [''.env.example''] = Regular (''TELEGRAM_API_ID='' @ [DQUOTE, DQUOTE, LF])"
    by (simp add: initialize_config_files_steps create_if_missing_def create_file_entry
        create_file_unwritable exists_path_def sample_config_fs_def sample_defs DQUOTE_def LF_def)
  from init_idempotent [OF i] have
    "\<exists>w2. init sample_dotenv [''config''] ?w1 = Inr (sample_manager, w2) \<and> files w2 = files ?w1"
    by blast
  with i e show ?thesis by blast
qed

end
